theory Spec2Isabelle
  imports Main "HOL-Library.Multiset"
begin

section \<open>The task executor of the browser extension\<close>

text \<open>
  A shallow embedding of class \<open>TaskExecutor\<close> of
  \<^verbatim>\<open>browser-extension/src/content.ts\<close>. The class receives task requests on a
  WebSocket, runs at most \<open>maxConcurrentTasks\<close> of them at a time, keeps the others in
  \<open>taskQueue\<close>, and hands a \<open>task_result\<close> frame to the socket when a task finishes.

  JavaScript runs the class on one thread. Between two \<^verbatim>\<open>await\<close>s a method runs
  without interruption, so the model has two kinds of atomic step: the arrival of a frame
  (\<open>socket.onmessage\<close> up to its first suspension) and the settling of the promise of one
  \<open>executeTask\<close> call (the rest of \<open>handleTaskRequest\<close>, again up to the next
  suspension). What the browser, the page and the network reply is not decided by the
  class; every settling step takes those replies as an argument.

  The socket is the browser's. The model keeps the state of \<open>this.socket\<close> and has an
  event for each change of it: the socket opens, it closes (\<open>onclose\<close> sets the timer of
  5000 ms), the timer fires and \<open>initializeWebSocket\<close> makes a new socket.
\<close>

subsection \<open>JavaScript values\<close>

text \<open>
  Tasks are typed \<open>any\<close>: they are whatever \<open>JSON.parse\<close> made of the frame. A value is
  a JSON value or \<open>undefined\<close> (what reading a missing property gives). The engine never
  computes with numbers, so a number is kept as the text \<open>String(n)\<close> gives for it. An
  object is the list of its own properties, each name once.
\<close>

datatype jsval =
    JUndefined
  | JNull
  | JBool bool
  | JNum string
  | JStr string
  | JArr "jsval list"
  | JObj "(string \<times> jsval) list"

text \<open>
  What can be thrown: an \<open>Error\<close> made with a message (by the engine's own \<open>throw new
  Error(...)\<close>, or by the browser when a call fails), the \<open>TypeError\<close> of the language for
  a property read on \<open>null\<close> or \<open>undefined\<close>, the \<open>SyntaxError\<close> of \<open>JSON.parse\<close>, and
  the \<open>InvalidStateError\<close> of \<open>send\<close> on a socket that is still connecting.
\<close>

datatype thrown = ErrorObj string | TypeErrorObj | SyntaxErrorObj | InvalidStateErrorObj

text \<open>How a promise settles.\<close>

datatype 'a settled = Resolved 'a | Rejected thrown

text \<open>
  \<open>x.k\<close> for the property names the engine reads (\<open>id\<close>, \<open>type\<close>, \<open>parameters\<close>,
  \<open>action\<close>, ...; none of them is inherited from a prototype): a \<open>TypeError\<close> on \<open>null\<close>
  and \<open>undefined\<close>, the own property of an object, \<open>undefined\<close> otherwise. Destructuring
  \<open>const {k} = x\<close> behaves the same way.
\<close>

fun getProp :: "jsval \<Rightarrow> string \<Rightarrow> thrown + jsval" where
  "getProp JUndefined k = Inl TypeErrorObj"
| "getProp JNull k = Inl TypeErrorObj"
| "getProp (JObj kvs) k = Inr (case map_of kvs k of None \<Rightarrow> JUndefined | Some v \<Rightarrow> v)"
| "getProp (JBool b) k = Inr JUndefined"
| "getProp (JNum n) k = Inr JUndefined"
| "getProp (JStr s) k = Inr JUndefined"
| "getProp (JArr xs) k = Inr JUndefined"

text \<open>
  The string conversion of a template literal \<open>`${x}`\<close>. An array joins the texts of its
  elements with commas (\<open>null\<close> and \<open>undefined\<close> elements give the empty text); a plain
  object gives \<open>[object Object]\<close>, unless it has an own property \<open>toString\<close>, which hides
  the inherited method and, not being a function, makes the conversion throw a
  \<open>TypeError\<close> (\<open>None\<close>).
\<close>

fun toStringJS :: "jsval \<Rightarrow> string option"
  and joinJS :: "jsval list \<Rightarrow> string option" where
  "toStringJS JUndefined = Some ''undefined''"
| "toStringJS JNull = Some ''null''"
| "toStringJS (JBool b) = Some (if b then ''true'' else ''false'')"
| "toStringJS (JNum n) = Some n"
| "toStringJS (JStr s) = Some s"
| "toStringJS (JArr xs) = joinJS xs"
| "toStringJS (JObj kvs) =
     (if ''toString'' \<in> set (map fst kvs) then None else Some ''[object Object]'')"
| "joinJS [] = Some []"
| "joinJS (x # xs) =
     (case (if x = JNull \<or> x = JUndefined then Some [] else toStringJS x) of
        None \<Rightarrow> None
      | Some a \<Rightarrow>
          (if xs = [] then Some a
           else (case joinJS xs of None \<Rightarrow> None | Some b \<Rightarrow> Some (a @ '','' @ b))))"

text \<open>
  \<open>JSON.stringify\<close> writes no member whose value is \<open>undefined\<close>, and writes \<open>null\<close> for an
  \<open>undefined\<close> array element and for a number that is not finite (\<open>JSON.parse\<close> gives
  \<open>Infinity\<close> for \<open>1e400\<close>). A frame is kept as the value its text denotes.
\<close>

fun stringify :: "jsval \<Rightarrow> jsval"
  and stringifyMembers :: "(string \<times> jsval) list \<Rightarrow> (string \<times> jsval) list"
  and stringifyElements :: "jsval list \<Rightarrow> jsval list" where
  "stringify (JObj kvs) = JObj (stringifyMembers kvs)"
| "stringify (JArr xs) = JArr (stringifyElements xs)"
| "stringify JUndefined = JUndefined"
| "stringify JNull = JNull"
| "stringify (JBool b) = JBool b"
| "stringify (JNum n) =
     (if n = ''Infinity'' \<or> n = ''-Infinity'' \<or> n = ''NaN'' then JNull else JNum n)"
| "stringify (JStr s) = JStr s"
| "stringifyMembers [] = []"
| "stringifyMembers (kv # kvs) =
     (if snd kv = JUndefined then stringifyMembers kvs
      else (fst kv, stringify (snd kv)) # stringifyMembers kvs)"
| "stringifyElements [] = []"
| "stringifyElements (x # xs) =
     (if x = JUndefined then JNull else stringify x) # stringifyElements xs"

subsection \<open>The replies of the host\<close>

text \<open>
  Everything a handler awaits comes from outside the class: the browser's tab query and
  its message to the page, \<open>fetch\<close>, the window and notification calls, the screenshot.
  A tab is given by its \<open>id\<close> (\<open>None\<close> when the tab has none). The record also carries
  the text the host gives a \<open>TypeError\<close>, a \<open>SyntaxError\<close> and an
  \<open>InvalidStateError\<close>, and what \<open>new Date().toISOString()\<close> returns.
\<close>

record env =
  tabsQuery :: "int option list settled"
  tabsSendMessage :: "jsval settled"
  fetchJson :: "jsval settled"
  windowsCreate :: "jsval settled"
  notificationsCreate :: "jsval settled"
  captureVisibleTab :: "jsval settled"
  typeErrorText :: string
  syntaxErrorText :: string
  invalidStateErrorText :: string
  nowISO :: string

text \<open>\<open>error.message\<close>.\<close>

fun messageOf :: "env \<Rightarrow> thrown \<Rightarrow> string" where
  "messageOf e (ErrorObj m) = m"
| "messageOf e TypeErrorObj = typeErrorText e"
| "messageOf e SyntaxErrorObj = syntaxErrorText e"
| "messageOf e InvalidStateErrorObj = invalidStateErrorText e"

subsection \<open>The handlers\<close>

text \<open>
  \<open>executeInPage\<close>: \<open>const [tab] = await browser.tabs.query(...)\<close>, then
  \<open>if (!tab.id) throw new Error('No active tab')\<close>, then the message to the tab. With no
  tab at all \<open>tab\<close> is \<open>undefined\<close> and \<open>tab.id\<close> throws.
\<close>

definition executeInPage :: "env \<Rightarrow> jsval settled" where
  "executeInPage e =
     (case tabsQuery e of
        Rejected x \<Rightarrow> Rejected x
      | Resolved tabs \<Rightarrow>
          (case tabs of
             [] \<Rightarrow> Rejected TypeErrorObj
           | tab # _ \<Rightarrow>
               (if tab = None \<or> tab = Some 0 then Rejected (ErrorObj ''No active tab'')
                else tabsSendMessage e)))"

text \<open>\<open>throw new Error(`<prefix>${v}`)\<close>; the conversion of \<open>v\<close> may itself throw.\<close>

definition throwUnknown :: "string \<Rightarrow> jsval \<Rightarrow> jsval settled" where
  "throwUnknown prefix v =
     (case toStringJS v of
        None \<Rightarrow> Rejected TypeErrorObj
      | Some txt \<Rightarrow> Rejected (ErrorObj (prefix @ txt)))"

definition executeDOMTask :: "env \<Rightarrow> jsval \<Rightarrow> jsval settled" where
  "executeDOMTask e task =
     (case getProp task ''parameters'' of
        Inl x \<Rightarrow> Rejected x
      | Inr parameters \<Rightarrow>
          (case getProp parameters ''action'' of
             Inl x \<Rightarrow> Rejected x
           | Inr action \<Rightarrow>
               (if action = JStr ''CLICK'' then executeInPage e
                else if action = JStr ''INPUT'' then executeInPage e
                else if action = JStr ''SCROLL'' then executeInPage e
                else throwUnknown ''Unknown DOM action: '' action)))"

definition executeNetworkTask :: "env \<Rightarrow> jsval \<Rightarrow> jsval settled" where
  "executeNetworkTask e task =
     (case getProp task ''parameters'' of
        Inl x \<Rightarrow> Rejected x
      | Inr parameters \<Rightarrow>
          (case getProp parameters ''url'' of
             Inl x \<Rightarrow> Rejected x
           | Inr url \<Rightarrow> fetchJson e))"

definition executeUITask :: "env \<Rightarrow> jsval \<Rightarrow> jsval settled" where
  "executeUITask e task =
     (case getProp task ''parameters'' of
        Inl x \<Rightarrow> Rejected x
      | Inr outer \<Rightarrow>
          (case getProp outer ''action'' of
             Inl x \<Rightarrow> Rejected x
           | Inr action \<Rightarrow>
               (case getProp outer ''parameters'' of
                  Inl x \<Rightarrow> Rejected x
                | Inr parameters \<Rightarrow>
                    (if action = JStr ''OPEN_POPUP'' then
                       (case getProp parameters ''url'' of
                          Inl x \<Rightarrow> Rejected x
                        | Inr url \<Rightarrow> windowsCreate e)
                     else if action = JStr ''SHOW_NOTIFICATION'' then
                       (case getProp parameters ''icon'' of
                          Inl x \<Rightarrow> Rejected x
                        | Inr icon \<Rightarrow> notificationsCreate e)
                     else throwUnknown ''Unknown UI action: '' action))))"

definition executeDataExtractionTask :: "env \<Rightarrow> jsval \<Rightarrow> jsval settled" where
  "executeDataExtractionTask e task =
     (case getProp task ''parameters'' of
        Inl x \<Rightarrow> Rejected x
      | Inr parameters \<Rightarrow>
          (case getProp parameters ''type'' of
             Inl x \<Rightarrow> Rejected x
           | Inr ty \<Rightarrow>
               (if ty = JStr ''TEXT'' then executeInPage e
                else if ty = JStr ''ATTRIBUTES'' then executeInPage e
                else if ty = JStr ''SCREENSHOT'' then captureVisibleTab e
                else throwUnknown ''Unknown extraction type: '' ty)))"

text \<open>
  \<open>executeTask\<close> is \<open>async\<close>: whatever is thrown inside, also by \<open>task.type\<close> on a task
  that is \<open>null\<close>, rejects the promise it returns.
\<close>

definition executeTask :: "env \<Rightarrow> jsval \<Rightarrow> jsval settled" where
  "executeTask e task =
     (case getProp task ''type'' of
        Inl x \<Rightarrow> Rejected x
      | Inr ty \<Rightarrow>
          (if ty = JStr ''DOM_MANIPULATION'' then executeDOMTask e task
           else if ty = JStr ''NETWORK_INTERCEPT'' then executeNetworkTask e task
           else if ty = JStr ''UI_AUTOMATION'' then executeUITask e task
           else if ty = JStr ''DATA_EXTRACTION'' then executeDataExtractionTask e task
           else throwUnknown ''Unknown task type: '' ty))"

subsection \<open>The executor\<close>

text \<open>
  \<open>TaskExecutorConfig\<close>. The numbers of the configuration are whole numbers (the
  module constructs the executor with 5, 30000 and 3).
\<close>

record config =
  maxConcurrentTasks :: int
  defaultTimeout :: int
  retryAttempts :: int

text \<open>
  A call of \<open>handleTaskRequest\<close> that has started its task is suspended at
  \<open>await this.executeTask(task)\<close> until the handler's promise settles. \<open>awaitedBy\<close>
  counts the calls of \<open>handleTaskRequest\<close> that are themselves suspended at
  \<open>await this.handleTaskRequest(nextTask)\<close> waiting for this one: 0 for a call made by
  \<open>onmessage\<close>, one more than its caller's for a call made to start a queued task.
\<close>

record invocation =
  itask :: jsval
  awaitedBy :: nat

text \<open>
  The state of \<open>this.socket\<close>. \<open>CLOSED\<close> stands for closing and closed: in both
  \<open>send\<close> returns and the data is discarded. A closed socket is never used again: its
  \<open>onclose\<close> has set the timer that replaces it.
\<close>

datatype readyState = CONNECTING | OPEN | CLOSED

text \<open>
  What the executor does, in the order it does it: \<open>onmessage\<close> hands the content of a
  task request to \<open>handleTaskRequest\<close>; \<open>taskQueue.push\<close>; the start of a task
  (\<open>activeTaskCount++\<close> and the call of \<open>executeTask\<close>) with the nesting depth of the
  call; the settling of a handler's promise, with the state the socket is in at that
  moment; \<open>socket.send\<close> of a frame on an open socket; \<open>socket.send\<close> of a frame that a
  closed socket discards; and an exception that leaves \<open>onmessage\<close> or
  \<open>handleTaskRequest\<close> uncaught.
\<close>

datatype action =
    Received jsval
  | Pushed jsval
  | Began nat jsval
  | Resumed jsval "jsval settled" readyState
  | Send jsval
  | Dropped jsval
  | Unhandled thrown

record state =
  activeTaskCount :: int
  taskQueue :: "jsval list"
  suspended :: "invocation list"
  socket :: readyState
  trace :: "action list"

text \<open>\<open>initializeWebSocket\<close>: \<open>this.socket\<close> is a new socket, not yet open.\<close>

definition initializeWebSocket :: "state \<Rightarrow> state" where
  "initializeWebSocket s = s\<lparr>socket := CONNECTING\<rparr>"

text \<open>The executor as its constructor leaves it.\<close>

definition initial :: state where
  "initial =
     initializeWebSocket
       \<lparr>activeTaskCount = 0, taskQueue = [], suspended = [], socket = CLOSED, trace = []\<rparr>"

definition emit :: "action \<Rightarrow> state \<Rightarrow> state" where
  "emit a s = s\<lparr>trace := trace s @ [a]\<rparr>"

text \<open>
  \<open>this.socket.send(data)\<close>: an \<open>InvalidStateError\<close> while the socket is connecting; on
  an open socket the frame goes out; a closed socket discards it.
\<close>

definition socketSend :: "jsval \<Rightarrow> state \<Rightarrow> thrown + state" where
  "socketSend frame s =
     (case socket s of
        CONNECTING \<Rightarrow> Inl InvalidStateErrorObj
      | OPEN \<Rightarrow> Inr (emit (Send frame) s)
      | CLOSED \<Rightarrow> Inr (emit (Dropped frame) s))"

text \<open>
  \<open>sendTaskResult(taskId, status, result = null, error = null)\<close>. A \<open>result\<close> that is
  \<open>undefined\<close> takes the default \<open>null\<close>; \<open>error\<close> is \<open>None\<close> when the caller passes
  none, and a caught error is an object, so \<open>error ? error.message : null\<close> is its
  message. \<open>resultMessage\<close> is the object literal; the socket is handed its text.
\<close>

definition resultMessage ::
  "env \<Rightarrow> jsval \<Rightarrow> string \<Rightarrow> jsval \<Rightarrow> thrown option \<Rightarrow> jsval" where
  "resultMessage e taskId status result error =
     JObj
       [(''message_type'', JStr ''task_result''),
        (''content'', JObj
          [(''task_id'', taskId),
           (''status'', JStr status),
           (''result'', if result = JUndefined then JNull else result),
           (''error'', case error of None \<Rightarrow> JNull | Some x \<Rightarrow> JStr (messageOf e x)),
           (''timestamp'', JStr (nowISO e))])]"

definition sendTaskResult ::
  "env \<Rightarrow> jsval \<Rightarrow> string \<Rightarrow> jsval \<Rightarrow> thrown option \<Rightarrow> state \<Rightarrow> thrown + state" where
  "sendTaskResult e taskId status result error s =
     socketSend (stringify (resultMessage e taskId status result error)) s"

text \<open>
  \<open>handleTaskRequest\<close> up to its \<open>await\<close>: at capacity the task is pushed and the call
  returns; otherwise the counter goes up, \<open>executeTask\<close> is called and the call is
  suspended on its promise.
\<close>

definition handleTaskRequest :: "config \<Rightarrow> nat \<Rightarrow> jsval \<Rightarrow> state \<Rightarrow> state" where
  "handleTaskRequest cfg depth t s =
     (if activeTaskCount s \<ge> maxConcurrentTasks cfg
      then emit (Pushed t) (s\<lparr>taskQueue := taskQueue s @ [t]\<rparr>)
      else emit (Began depth t)
             (s\<lparr>activeTaskCount := activeTaskCount s + 1,
                suspended := suspended s @ [\<lparr>itask = t, awaitedBy = depth\<rparr>]\<rparr>))"

text \<open>
  The statements after the \<open>try\<close>: \<open>this.activeTaskCount--\<close>, then, if the queue is
  not empty, \<open>shift\<close> and the awaited recursive call.
\<close>

definition afterTry :: "config \<Rightarrow> invocation \<Rightarrow> state \<Rightarrow> state" where
  "afterTry cfg call s =
     (let s1 = s\<lparr>activeTaskCount := activeTaskCount s - 1\<rparr> in
      case taskQueue s1 of
        [] \<Rightarrow> s1
      | nextTask # rest \<Rightarrow>
          handleTaskRequest cfg (Suc (awaitedBy call)) nextTask (s1\<lparr>taskQueue := rest\<rparr>))"

text \<open>
  The \<open>try\<close> block once the handler's promise has settled: a rejection, and anything
  thrown while the result is sent, goes to the \<open>catch\<close> block.
\<close>

definition tryBlock :: "env \<Rightarrow> jsval \<Rightarrow> jsval settled \<Rightarrow> state \<Rightarrow> thrown + state" where
  "tryBlock e t outcome s =
     (case outcome of
        Rejected x \<Rightarrow> Inl x
      | Resolved result \<Rightarrow>
          (case getProp t ''id'' of
             Inl x \<Rightarrow> Inl x
           | Inr taskId \<Rightarrow> sendTaskResult e taskId ''completed'' result None s))"

text \<open>The \<open>catch\<close> block; what it throws leaves \<open>handleTaskRequest\<close>.\<close>

definition catchBlock :: "env \<Rightarrow> jsval \<Rightarrow> thrown \<Rightarrow> state \<Rightarrow> thrown + state" where
  "catchBlock e t error s =
     (case getProp t ''id'' of
        Inl x \<Rightarrow> Inl x
      | Inr taskId \<Rightarrow> sendTaskResult e taskId ''failed'' JNull (Some error) s)"

text \<open>
  \<open>handleTaskRequest\<close> from the \<open>await\<close> on. An exception that leaves the \<open>catch\<close>
  block ends the call there: the decrement and the look at the queue are not reached.
\<close>

definition resumeTask :: "config \<Rightarrow> env \<Rightarrow> invocation \<Rightarrow> state \<Rightarrow> state" where
  "resumeTask cfg e call s =
     (let t = itask call;
          outcome = executeTask e t;
          s0 = emit (Resumed t outcome (socket s)) s in
      case (case tryBlock e t outcome s0 of
              Inr s1 \<Rightarrow> Inr s1
            | Inl error \<Rightarrow> catchBlock e t error s0) of
        Inl x \<Rightarrow> emit (Unhandled x) s0
      | Inr s1 \<Rightarrow> afterTry cfg call s1)"

text \<open>
  \<open>socket.onmessage\<close>. The argument is what \<open>JSON.parse(event.data)\<close> returns, \<open>None\<close>
  when it throws. The handler is \<open>async\<close>, so what it throws is an unhandled rejection.
\<close>

definition onmessage :: "config \<Rightarrow> jsval option \<Rightarrow> state \<Rightarrow> state" where
  "onmessage cfg parsed s =
     (case parsed of
        None \<Rightarrow> emit (Unhandled SyntaxErrorObj) s
      | Some message \<Rightarrow>
          (case getProp message ''message_type'' of
             Inl x \<Rightarrow> emit (Unhandled x) s
           | Inr mt \<Rightarrow>
               (if mt = JStr ''task_request'' then
                  (case getProp message ''content'' of
                     Inl x \<Rightarrow> emit (Unhandled x) s
                   | Inr content \<Rightarrow> handleTaskRequest cfg 0 content (emit (Received content) s))
                else s)))"

text \<open>
  The events. A frame arrives: only an open socket delivers one. The handler promise of
  the \<open>i\<close>-th suspended call settles, the host having replied \<open>e\<close>. The connecting
  socket opens. The socket closes, open or still connecting, and \<open>onclose\<close> sets the
  timer. The timer fires and \<open>initializeWebSocket\<close> runs: this happens to a closed socket
  only, each close setting one timer. An event that cannot happen in a state leaves it
  as it is.
\<close>

datatype event = Message "jsval option" | Settle nat env | Opened | Closed | Reconnect

definition remaining :: "nat \<Rightarrow> 'a list \<Rightarrow> 'a list" where
  "remaining i xs = take i xs @ drop (Suc i) xs"

definition step :: "config \<Rightarrow> event \<Rightarrow> state \<Rightarrow> state" where
  "step cfg ev s =
     (case ev of
        Message parsed \<Rightarrow> (if socket s = OPEN then onmessage cfg parsed s else s)
      | Settle i e \<Rightarrow>
          (if i < length (suspended s)
           then resumeTask cfg e (suspended s ! i)
                  (s\<lparr>suspended := remaining i (suspended s)\<rparr>)
           else s)
      | Opened \<Rightarrow> (if socket s = CONNECTING then s\<lparr>socket := OPEN\<rparr> else s)
      | Closed \<Rightarrow> (if socket s = CLOSED then s else s\<lparr>socket := CLOSED\<rparr>)
      | Reconnect \<Rightarrow> (if socket s = CLOSED then initializeWebSocket s else s))"

text \<open>The executor after a sequence of events, from its construction.\<close>

definition run :: "config \<Rightarrow> event list \<Rightarrow> state" where
  "run cfg evs = foldl (\<lambda>s ev. step cfg ev s) initial evs"

text \<open>Readings of the trace.\<close>

fun receivedOf :: "action \<Rightarrow> jsval list" where
  "receivedOf (Received t) = [t]"
| "receivedOf _ = []"

fun pushedOf :: "action \<Rightarrow> jsval list" where
  "pushedOf (Pushed t) = [t]"
| "pushedOf _ = []"

fun begunOf :: "action \<Rightarrow> jsval list" where
  "begunOf (Began d t) = [t]"
| "begunOf _ = []"

fun begunFromQueueOf :: "action \<Rightarrow> jsval list" where
  "begunFromQueueOf (Began d t) = (if d = 0 then [] else [t])"
| "begunFromQueueOf _ = []"

fun sentOf :: "action \<Rightarrow> jsval list" where
  "sentOf (Send f) = [f]"
| "sentOf _ = []"

fun droppedOf :: "action \<Rightarrow> jsval list" where
  "droppedOf (Dropped f) = [f]"
| "droppedOf _ = []"

fun resumedOf :: "action \<Rightarrow> (jsval \<times> jsval settled \<times> readyState) list" where
  "resumedOf (Resumed t outcome rs) = [(t, outcome, rs)]"
| "resumedOf _ = []"

definition received :: "state \<Rightarrow> jsval list" where
  "received s = concat (map receivedOf (trace s))"

definition pushed :: "state \<Rightarrow> jsval list" where
  "pushed s = concat (map pushedOf (trace s))"

definition begun :: "state \<Rightarrow> jsval list" where
  "begun s = concat (map begunOf (trace s))"

definition begunFromQueue :: "state \<Rightarrow> jsval list" where
  "begunFromQueue s = concat (map begunFromQueueOf (trace s))"

definition sent :: "state \<Rightarrow> jsval list" where
  "sent s = concat (map sentOf (trace s))"

definition dropped :: "state \<Rightarrow> jsval list" where
  "dropped s = concat (map droppedOf (trace s))"

definition resumed :: "state \<Rightarrow> (jsval \<times> jsval settled \<times> readyState) list" where
  "resumed s = concat (map resumedOf (trace s))"

text \<open>The task a frame asks for: what \<open>onmessage\<close> hands on.\<close>

definition requestedOf :: "event \<Rightarrow> jsval list" where
  "requestedOf ev =
     (case ev of
        Message None \<Rightarrow> []
      | Message (Some message) \<Rightarrow>
          (case getProp message ''message_type'' of
             Inl x \<Rightarrow> []
           | Inr mt \<Rightarrow>
               (if mt = JStr ''task_request'' then
                  (case getProp message ''content'' of Inl x \<Rightarrow> [] | Inr content \<Rightarrow> [content])
                else []))
      | _ \<Rightarrow> [])"

text \<open>The executor the module constructs (\<open>export const taskExecutor\<close>).\<close>

definition taskExecutor :: config where
  "taskExecutor = \<lparr>maxConcurrentTasks = 5, defaultTimeout = 30000, retryAttempts = 3\<rparr>"

subsection \<open>Notions used in the statements\<close>

definition nullish :: "jsval \<Rightarrow> bool" where
  "nullish v = (v = JNull \<or> v = JUndefined)"

text \<open>A property read that is known not to throw.\<close>

definition field :: "jsval \<Rightarrow> string \<Rightarrow> jsval" where
  "field v k = (case getProp v k of Inl x \<Rightarrow> JUndefined | Inr y \<Rightarrow> y)"

definition contentField :: "jsval \<Rightarrow> string \<Rightarrow> jsval" where
  "contentField frame k = field (field frame ''content'') k"

definition statusOf :: "jsval settled \<Rightarrow> string" where
  "statusOf outcome = (case outcome of Resolved r \<Rightarrow> ''completed'' | Rejected x \<Rightarrow> ''failed'')"

text \<open>The frame for a task whose handler settled with \<open>outcome\<close>.\<close>

definition resultFrame :: "env \<Rightarrow> jsval \<Rightarrow> jsval settled \<Rightarrow> jsval" where
  "resultFrame e t outcome =
     (case outcome of
        Resolved r \<Rightarrow> stringify (resultMessage e (field t ''id'') ''completed'' r None)
      | Rejected x \<Rightarrow> stringify (resultMessage e (field t ''id'') ''failed'' JNull (Some x)))"

text \<open>
  The invariant of admission: no more suspended calls than the counter says, the
  counter within the limit (or still 0, under a limit below 0), and a waiting task only
  at capacity.
\<close>

definition admission :: "config \<Rightarrow> state \<Rightarrow> bool" where
  "admission cfg s =
     (int (length (suspended s)) \<le> activeTaskCount s \<and>
      (activeTaskCount s \<le> maxConcurrentTasks cfg \<or> activeTaskCount s = 0) \<and>
      (taskQueue s \<noteq> [] \<longrightarrow> maxConcurrentTasks cfg \<le> activeTaskCount s))"



text \<open>
  What \<open>send\<close> does with a frame on a socket that is not connecting: it goes out on an
  open socket and is discarded by a closed one.
\<close>

definition handed :: "readyState \<Rightarrow> jsval \<Rightarrow> action" where
  "handed rs frame = (if rs = OPEN then Send frame else Dropped frame)"

text \<open>
  The tasks with properties (not \<open>null\<close>, not \<open>undefined\<close>) whose handler settled while
  the socket was in state \<open>rs\<close>, each with the way it settled, in the order of settling.
\<close>

fun settledWhileOf :: "readyState \<Rightarrow> action \<Rightarrow> (jsval \<times> jsval settled) list" where
  "settledWhileOf rs (Resumed t outcome rs') =
     (if rs' = rs \<and> t \<noteq> JNull \<and> t \<noteq> JUndefined then [(t, outcome)] else [])"
| "settledWhileOf rs _ = []"

definition settledWhile :: "readyState \<Rightarrow> state \<Rightarrow> (jsval \<times> jsval settled) list" where
  "settledWhile rs s = concat (map (settledWhileOf rs) (trace s))"



subsection \<open>The completion of a task in the words of the specification\<close>

text \<open>
  The completion of a task as the specification words it: decrement the counter, emit
  the one result message (the channel's \<open>send\<close> is a silent no-op when it is not
  connected), then, while the queue is not empty and the counter is below the limit, pop
  the head of the queue and admit it. The loop stays in one call, so no call waits for
  the call it admits.
\<close>

definition admit_spec :: "jsval \<Rightarrow> state \<Rightarrow> state" where
  "admit_spec t s =
     s\<lparr>activeTaskCount := activeTaskCount s + 1,
       suspended := suspended s @ [\<lparr>itask = t, awaitedBy = 0\<rparr>]\<rparr>"

function drain_spec :: "config \<Rightarrow> state \<Rightarrow> state" where
  "drain_spec cfg s =
     (if taskQueue s \<noteq> [] \<and> activeTaskCount s < maxConcurrentTasks cfg
      then drain_spec cfg (admit_spec (hd (taskQueue s)) (s\<lparr>taskQueue := tl (taskQueue s)\<rparr>))
      else s)"
  by pat_completeness auto
termination
  by (relation "measure (\<lambda>(cfg, s). length (taskQueue s))") (auto simp: admit_spec_def)

declare drain_spec.simps [simp del]

definition onTaskFinished_spec :: "config \<Rightarrow> env \<Rightarrow> nat \<Rightarrow> state \<Rightarrow> state" where
  "onTaskFinished_spec cfg e i s =
     (let call = suspended s ! i;
          s1 = s\<lparr>activeTaskCount := activeTaskCount s - 1,
                 suspended := remaining i (suspended s)\<rparr>;
          s2 = (if socket s1 = OPEN
                then emit (Send (resultFrame e (itask call) (executeTask e (itask call)))) s1
                else s1)
      in drain_spec cfg s2)"

text \<open>What can be observed of a state: the counter, the queue, the running tasks, the frames sent.\<close>

definition observable :: "state \<Rightarrow> int \<times> jsval list \<times> jsval list \<times> jsval list" where
  "observable s = (activeTaskCount s, taskQueue s, map itask (suspended s), sent s)"

subsection \<open>Example inputs\<close>

definition exampleConfig :: "int \<Rightarrow> config" where
  "exampleConfig n = \<lparr>maxConcurrentTasks = n, defaultTimeout = 30000, retryAttempts = 3\<rparr>"

definition exampleEnv :: env where
  "exampleEnv =
     \<lparr>tabsQuery = Resolved [Some 7],
      tabsSendMessage = Resolved (JBool True),
      fetchJson = Rejected (ErrorObj ''Failed to fetch''),
      windowsCreate = Resolved (JObj [(''id'', JNum ''12'')]),
      notificationsCreate = Resolved (JStr ''n1''),
      captureVisibleTab = Resolved (JStr ''data:image/png;base64,AAAA''),
      typeErrorText = ''Cannot read properties of undefined'',
      syntaxErrorText = ''Unexpected token'',
      invalidStateErrorText = ''Still in CONNECTING state'',
      nowISO = ''2024-05-01T12:00:00.000Z''\<rparr>"

definition exampleTask :: "string \<Rightarrow> string \<Rightarrow> string \<Rightarrow> jsval" where
  "exampleTask i ty a =
     JObj [(''id'', JStr i), (''type'', JStr ty),
           (''parameters'', JObj [(''action'', JStr a), (''type'', JStr a),
                                  (''selector'', JStr ''#go'')])]"

definition request :: "jsval \<Rightarrow> event" where
  "request c =
     Message (Some (JObj [(''sender'', JStr ''interface''),
                          (''message_type'', JStr ''task_request''),
                          (''content'', c)]))"

text \<open>
  A task request whose \<open>content\<close> is \<open>null\<close>.
\<close>

definition nullRequest :: event where
  "nullRequest =
     Message (Some (JObj [(''message_type'', JStr ''task_request''), (''content'', JNull)]))"

section \<open>Facts about the model\<close>

subsection \<open>Basic facts\<close>

lemma getProp_nullish: "nullish v \<Longrightarrow> getProp v k = Inl TypeErrorObj"
  by (auto simp: nullish_def)

lemma getProp_field: "\<not> nullish v \<Longrightarrow> getProp v k = Inr (field v k)"
  by (cases v) (auto simp: nullish_def field_def)

lemma getProp_Inr_proper: "getProp v k = Inr x \<Longrightarrow> \<not> nullish v"
  by (cases v) (auto simp: nullish_def)

lemma run_Nil: "run cfg [] = initial"
  by (simp add: run_def)

lemma run_snoc: "run cfg (evs @ [ev]) = step cfg ev (run cfg evs)"
  by (simp add: run_def)


lemma length_remaining: "i < length xs \<Longrightarrow> Suc (length (remaining i xs)) = length xs"
  by (auto simp: remaining_def)

lemma remaining_last: "remaining (length xs) (xs @ [x]) = xs"
  by (simp add: remaining_def)

lemma handleTaskRequest_full:
  "maxConcurrentTasks cfg \<le> activeTaskCount s \<Longrightarrow>
   handleTaskRequest cfg d t s = s\<lparr>taskQueue := taskQueue s @ [t], trace := trace s @ [Pushed t]\<rparr>"
  by (simp add: handleTaskRequest_def emit_def)

lemma handleTaskRequest_free:
  "activeTaskCount s < maxConcurrentTasks cfg \<Longrightarrow>
   handleTaskRequest cfg d t s =
     s\<lparr>activeTaskCount := activeTaskCount s + 1,
       suspended := suspended s @ [\<lparr>itask = t, awaitedBy = d\<rparr>],
       trace := trace s @ [Began d t]\<rparr>"
  by (simp add: handleTaskRequest_def emit_def)

lemma executeTask_nullish: "nullish t \<Longrightarrow> executeTask e t = Rejected TypeErrorObj"
  by (simp add: executeTask_def getProp_nullish)

lemma resumeTask_nullish:
  "nullish (itask call) \<Longrightarrow>
   resumeTask cfg e call s =
     s\<lparr>trace := trace s @ [Resumed (itask call) (executeTask e (itask call)) (socket s),
                             Unhandled TypeErrorObj]\<rparr>"
  by (simp add: resumeTask_def executeTask_nullish tryBlock_def catchBlock_def getProp_nullish
        emit_def)

lemma resumeTask_connecting:
  "\<not> nullish (itask call) \<Longrightarrow> socket s = CONNECTING \<Longrightarrow>
   resumeTask cfg e call s =
     s\<lparr>trace := trace s @ [Resumed (itask call) (executeTask e (itask call)) (socket s),
                             Unhandled InvalidStateErrorObj]\<rparr>"
  by (cases "executeTask e (itask call)")
     (simp_all add: resumeTask_def tryBlock_def catchBlock_def getProp_field emit_def
        sendTaskResult_def socketSend_def Let_def)

lemma resumeTask_proper:
  "\<not> nullish (itask call) \<Longrightarrow> socket s \<noteq> CONNECTING \<Longrightarrow>
   resumeTask cfg e call s =
     afterTry cfg call
       (s\<lparr>trace := trace s @
            [Resumed (itask call) (executeTask e (itask call)) (socket s),
             handed (socket s) (resultFrame e (itask call) (executeTask e (itask call)))]\<rparr>)"
  by (cases "executeTask e (itask call)"; cases "socket s")
     (simp_all add: resumeTask_def tryBlock_def catchBlock_def getProp_field emit_def
        sendTaskResult_def socketSend_def resultFrame_def handed_def Let_def)

lemma executeTask_unknown_type:
  assumes "getProp t ''type'' = Inr ty"
    and "ty \<notin> {JStr ''DOM_MANIPULATION'', JStr ''NETWORK_INTERCEPT'', JStr ''UI_AUTOMATION'',
               JStr ''DATA_EXTRACTION''}"
    and "toStringJS ty = Some category"
  shows "executeTask e t = Rejected (ErrorObj (''Unknown task type: '' @ category))"
  using assms by (simp add: executeTask_def throwUnknown_def)

subsection \<open>The steps, case by case\<close>

lemma onmessage_request:
  "requestedOf (Message parsed) = [c] \<Longrightarrow>
   onmessage cfg parsed s = handleTaskRequest cfg 0 c (s\<lparr>trace := trace s @ [Received c]\<rparr>)"
  by (auto simp: requestedOf_def onmessage_def emit_def split: option.splits sum.splits if_splits)

lemma onmessage_other:
  "requestedOf (Message parsed) = [] \<Longrightarrow>
   \<exists>us. onmessage cfg parsed s = s\<lparr>trace := trace s @ map Unhandled us\<rparr>"
proof (cases "onmessage cfg parsed s = s")
  case True
  then have "onmessage cfg parsed s = s\<lparr>trace := trace s @ map Unhandled []\<rparr>" by simp
  then show ?thesis by blast
next
  case False
  assume r: "requestedOf (Message parsed) = []"
  with False obtain x where "onmessage cfg parsed s = s\<lparr>trace := trace s @ map Unhandled [x]\<rparr>"
    by (auto simp: requestedOf_def onmessage_def emit_def split: option.splits sum.splits if_splits)
  then show ?thesis by blast
qed

lemma requestedOf_cases:
  "requestedOf (Message parsed) = [] \<or> (\<exists>c. requestedOf (Message parsed) = [c])"
  by (auto simp: requestedOf_def split: option.splits sum.splits)

lemma step_Settle_escaped:
  assumes "i < length (suspended s)"
    and "nullish (itask (suspended s ! i)) \<or> socket s = CONNECTING"
  shows "\<exists>x. step cfg (Settle i e) s =
           s\<lparr>suspended := remaining i (suspended s),
             trace := trace s @
               [Resumed (itask (suspended s ! i)) (executeTask e (itask (suspended s ! i)))
                  (socket s),
                Unhandled x]\<rparr>"
proof (cases "nullish (itask (suspended s ! i))")
  case True
  then show ?thesis
    using assms(1) by (intro exI[of _ TypeErrorObj]) (simp add: step_def resumeTask_nullish)
next
  case False
  with assms(2) have "socket s = CONNECTING" by simp
  with False show ?thesis
    using assms(1)
    by (intro exI[of _ InvalidStateErrorObj]) (simp add: step_def resumeTask_connecting)
qed

lemma step_Settle_finished:
  assumes "i < length (suspended s)" and "\<not> nullish (itask (suspended s ! i))"
    and "socket s \<noteq> CONNECTING" and "taskQueue s = []"
  shows "step cfg (Settle i e) s =
           s\<lparr>activeTaskCount := activeTaskCount s - 1,
             suspended := remaining i (suspended s),
             trace := trace s @
               [Resumed (itask (suspended s ! i)) (executeTask e (itask (suspended s ! i)))
                  (socket s),
                handed (socket s)
                  (resultFrame e (itask (suspended s ! i))
                     (executeTask e (itask (suspended s ! i))))]\<rparr>"
  using assms by (simp add: step_def resumeTask_proper afterTry_def)

lemma step_Settle_drained:
  assumes "admission cfg s"
    and "i < length (suspended s)" and "\<not> nullish (itask (suspended s ! i))"
    and "socket s \<noteq> CONNECTING" and "taskQueue s = nextTask # rest"
  shows "step cfg (Settle i e) s =
           s\<lparr>taskQueue := rest,
             suspended := remaining i (suspended s)
                @ [\<lparr>itask = nextTask, awaitedBy = Suc (awaitedBy (suspended s ! i))\<rparr>],
             trace := trace s @
               [Resumed (itask (suspended s ! i)) (executeTask e (itask (suspended s ! i)))
                  (socket s),
                handed (socket s)
                  (resultFrame e (itask (suspended s ! i))
                     (executeTask e (itask (suspended s ! i)))),
                Began (Suc (awaitedBy (suspended s ! i))) nextTask]\<rparr>"
proof -
  from assms(1,2) have "1 \<le> activeTaskCount s" "activeTaskCount s \<le> maxConcurrentTasks cfg"
    by (auto simp: admission_def)
  then show ?thesis
    using assms(2-5)
    by (simp add: step_def resumeTask_proper afterTry_def handleTaskRequest_free)
qed

lemma step_cases [consumes 1, case_names ignored socket queued started escaped finished drained]:
  assumes adm: "admission cfg s"
  obtains
    (ignored) us where "step cfg ev s = s\<lparr>trace := trace s @ map Unhandled us\<rparr>"
  | (socket) rs where "step cfg ev s = s\<lparr>socket := rs\<rparr>"
  | (queued) c where "maxConcurrentTasks cfg \<le> activeTaskCount s"
      and "step cfg ev s =
             s\<lparr>taskQueue := taskQueue s @ [c], trace := trace s @ [Received c, Pushed c]\<rparr>"
  | (started) c where "activeTaskCount s < maxConcurrentTasks cfg" and "taskQueue s = []"
      and "step cfg ev s =
             s\<lparr>activeTaskCount := activeTaskCount s + 1,
               suspended := suspended s @ [\<lparr>itask = c, awaitedBy = 0\<rparr>],
               trace := trace s @ [Received c, Began 0 c]\<rparr>"
  | (escaped) i e x where "i < length (suspended s)"
      and "nullish (itask (suspended s ! i)) \<or> socket s = CONNECTING"
      and "step cfg ev s =
             s\<lparr>suspended := remaining i (suspended s),
               trace := trace s @
                 [Resumed (itask (suspended s ! i)) (executeTask e (itask (suspended s ! i)))
                    (socket s),
                  Unhandled x]\<rparr>"
  | (finished) i e where "i < length (suspended s)"
      and "\<not> nullish (itask (suspended s ! i))" and "socket s \<noteq> CONNECTING"
      and "taskQueue s = []"
      and "step cfg ev s =
             s\<lparr>activeTaskCount := activeTaskCount s - 1,
               suspended := remaining i (suspended s),
               trace := trace s @
                 [Resumed (itask (suspended s ! i)) (executeTask e (itask (suspended s ! i)))
                    (socket s),
                  handed (socket s)
                    (resultFrame e (itask (suspended s ! i))
                       (executeTask e (itask (suspended s ! i))))]\<rparr>"
  | (drained) i e nextTask rest where "i < length (suspended s)"
      and "\<not> nullish (itask (suspended s ! i))" and "socket s \<noteq> CONNECTING"
      and "taskQueue s = nextTask # rest"
      and "step cfg ev s =
             s\<lparr>taskQueue := rest,
               suspended := remaining i (suspended s)
                  @ [\<lparr>itask = nextTask, awaitedBy = Suc (awaitedBy (suspended s ! i))\<rparr>],
               trace := trace s @
                 [Resumed (itask (suspended s ! i)) (executeTask e (itask (suspended s ! i)))
                    (socket s),
                  handed (socket s)
                    (resultFrame e (itask (suspended s ! i))
                       (executeTask e (itask (suspended s ! i)))),
                  Began (Suc (awaitedBy (suspended s ! i))) nextTask]\<rparr>"
proof (cases ev)
  case (Message parsed)
  show ?thesis
  proof (cases "socket s = OPEN")
    case False
    then have "step cfg ev s = s\<lparr>trace := trace s @ map Unhandled []\<rparr>"
      using Message by (simp add: step_def)
    then show ?thesis by (rule ignored)
  next
    case True
    then have st: "step cfg ev s = onmessage cfg parsed s"
      using Message by (simp add: step_def)
    from requestedOf_cases[of parsed] show ?thesis
    proof
      assume "requestedOf (Message parsed) = []"
      then obtain us where "onmessage cfg parsed s = s\<lparr>trace := trace s @ map Unhandled us\<rparr>"
        using onmessage_other by blast
      with st show ?thesis by (intro ignored[of us]) simp
    next
      assume "\<exists>c. requestedOf (Message parsed) = [c]"
      then obtain c where r: "requestedOf (Message parsed) = [c]" by blast
      show ?thesis
      proof (cases "maxConcurrentTasks cfg \<le> activeTaskCount s")
        case True
        then show ?thesis
          using r st by (intro queued[of c]) (simp_all add: onmessage_request handleTaskRequest_full)
      next
        case False
        then have "taskQueue s = []" using adm by (auto simp: admission_def)
        then show ?thesis
          using r st False
          by (intro started[of c]) (simp_all add: onmessage_request handleTaskRequest_free)
      qed
    qed
  qed
next
  case (Settle i e)
  show ?thesis
  proof (cases "i < length (suspended s)")
    case False
    then have "step cfg ev s = s\<lparr>trace := trace s @ map Unhandled []\<rparr>"
      using Settle by (simp add: step_def)
    then show ?thesis by (rule ignored)
  next
    case True
    note i = True
    show ?thesis
    proof (cases "nullish (itask (suspended s ! i)) \<or> socket s = CONNECTING")
      case True
      with i obtain x where "step cfg (Settle i e) s =
           s\<lparr>suspended := remaining i (suspended s),
             trace := trace s @
               [Resumed (itask (suspended s ! i)) (executeTask e (itask (suspended s ! i)))
                  (socket s),
                Unhandled x]\<rparr>"
        using step_Settle_escaped by blast
      with i True Settle show ?thesis by (intro escaped[of i e x]) simp_all
    next
      case False
      then have p: "\<not> nullish (itask (suspended s ! i))" and c: "socket s \<noteq> CONNECTING"
        by simp_all
      show ?thesis
      proof (cases "taskQueue s")
        case Nil
        with i p c Settle show ?thesis
          by (intro finished[of i e]) (simp_all add: step_Settle_finished)
      next
        case (Cons nextTask rest)
        with i p c Settle adm show ?thesis
          by (intro drained[of i nextTask rest e]) (simp_all add: step_Settle_drained)
      qed
    qed
  qed
next
  case Opened
  show ?thesis
  proof (cases "socket s = CONNECTING")
    case True
    then have "step cfg ev s = s\<lparr>socket := OPEN\<rparr>" using Opened by (simp add: step_def)
    then show ?thesis by (rule socket)
  next
    case False
    then have "step cfg ev s = s\<lparr>trace := trace s @ map Unhandled []\<rparr>"
      using Opened by (simp add: step_def)
    then show ?thesis by (rule ignored)
  qed
next
  case Closed
  show ?thesis
  proof (cases "socket s = CLOSED")
    case False
    then have "step cfg ev s = s\<lparr>socket := CLOSED\<rparr>" using Closed by (simp add: step_def)
    then show ?thesis by (rule socket)
  next
    case True
    then have "step cfg ev s = s\<lparr>trace := trace s @ map Unhandled []\<rparr>"
      using Closed by (simp add: step_def)
    then show ?thesis by (rule ignored)
  qed
next
  case Reconnect
  show ?thesis
  proof (cases "socket s = CLOSED")
    case True
    then have "step cfg ev s = s\<lparr>socket := CONNECTING\<rparr>"
      using Reconnect by (simp add: step_def initializeWebSocket_def)
    then show ?thesis by (rule socket)
  next
    case False
    then have "step cfg ev s = s\<lparr>trace := trace s @ map Unhandled []\<rparr>"
      using Reconnect by (simp add: step_def)
    then show ?thesis by (rule ignored)
  qed
qed

subsection \<open>Invariants of every run\<close>

lemma admission_step:
  assumes a: "admission cfg s"
  shows "admission cfg (step cfg ev s)"
  using a
proof (cases rule: step_cases[where ev = ev])
  case (escaped i e x)
  then show ?thesis
    using a length_remaining[of i "suspended s"] by (auto simp: admission_def)
next
  case (finished i e)
  then show ?thesis
    using a length_remaining[of i "suspended s"] by (auto simp: admission_def)
next
  case (drained i e nextTask rest)
  then show ?thesis
    using a length_remaining[of i "suspended s"] by (auto simp: admission_def)
qed (use a in \<open>auto simp: admission_def\<close>)

lemma admission_run: "admission cfg (run cfg evs)"
proof (induction evs rule: rev_induct)
  case Nil
  show ?case by (simp add: run_Nil admission_def initial_def initializeWebSocket_def)
next
  case (snoc ev evs)
  then show ?case by (simp add: run_snoc admission_step)
qed


subsection \<open>Readings of the trace\<close>

lemma unhandled_unread:
  "concat (map (receivedOf \<circ> Unhandled) us) = []"
  "concat (map (pushedOf \<circ> Unhandled) us) = []"
  "concat (map (begunOf \<circ> Unhandled) us) = []"
  "concat (map (begunFromQueueOf \<circ> Unhandled) us) = []"
  "concat (map (sentOf \<circ> Unhandled) us) = []"
  "concat (map (droppedOf \<circ> Unhandled) us) = []"
  "concat (map (resumedOf \<circ> Unhandled) us) = []"
  "concat (map (settledWhileOf rs \<circ> Unhandled) us) = []"
  by (induction us) simp_all

lemmas readings =
  received_def pushed_def begun_def begunFromQueue_def sent_def dropped_def resumed_def
  settledWhile_def unhandled_unread

lemma fifo_step:
  assumes a: "admission cfg s" and f: "pushed s = begunFromQueue s @ taskQueue s"
  shows "pushed (step cfg ev s) = begunFromQueue (step cfg ev s) @ taskQueue (step cfg ev s)"
  using a
proof (cases rule: step_cases[where ev = ev])
qed (use f in \<open>simp_all add: readings handed_def\<close>)

lemma fifo_run:
  "pushed (run cfg evs) = begunFromQueue (run cfg evs) @ taskQueue (run cfg evs)"
proof (induction evs rule: rev_induct)
  case Nil
  show ?case by (simp add: run_Nil initial_def initializeWebSocket_def readings)
next
  case (snoc ev evs)
  then show ?case by (simp add: run_snoc fifo_step admission_run)
qed






subsection \<open>The frames\<close>

lemma resultFrame_status: "contentField (resultFrame e t outcome) ''status'' = JStr (statusOf outcome)"
  by (cases outcome)
     (simp_all add: resultFrame_def resultMessage_def contentField_def field_def statusOf_def)


lemma resultFrame_error:
  "contentField (resultFrame e t (Resolved r)) ''error'' = JNull"
  by (simp add: resultFrame_def resultMessage_def contentField_def field_def)

lemma resultFrame_result:
  "contentField (resultFrame e t (Rejected x)) ''result'' = JNull"
  by (simp add: resultFrame_def resultMessage_def contentField_def field_def)





lemma sent_step:
  assumes a: "admission cfg s"
    and r: "\<forall>f \<in> set (sent s). \<exists>e t outcome. f = resultFrame e t outcome"
  shows "\<forall>f \<in> set (sent (step cfg ev s)). \<exists>e t outcome. f = resultFrame e t outcome"
  using a
proof (cases rule: step_cases[where ev = ev])
qed (use r in \<open>auto simp: readings handed_def\<close>)

lemma sent_run: "\<forall>f \<in> set (sent (run cfg evs)). \<exists>e t outcome. f = resultFrame e t outcome"
proof (induction evs rule: rev_induct)
  case Nil
  show ?case by (simp add: run_Nil initial_def initializeWebSocket_def readings)
next
  case (snoc ev evs)
  then show ?case
    using sent_step[OF admission_run, where ev = ev] by (simp add: run_snoc)
qed



subsection \<open>The configuration\<close>







subsection \<open>The loop of the specification\<close>

lemma drain_spec_stop:
  "taskQueue s = [] \<or> maxConcurrentTasks cfg \<le> activeTaskCount s \<Longrightarrow> drain_spec cfg s = s"
  by (subst drain_spec.simps) auto

lemma drain_spec_go:
  "taskQueue s = t # rest \<Longrightarrow> activeTaskCount s < maxConcurrentTasks cfg \<Longrightarrow>
   drain_spec cfg s = drain_spec cfg (admit_spec t (s\<lparr>taskQueue := rest\<rparr>))"
  by (subst drain_spec.simps) simp

lemma onTaskFinished_spec_empty:
  "taskQueue s = [] \<Longrightarrow>
   onTaskFinished_spec cfg e i s =
     s\<lparr>activeTaskCount := activeTaskCount s - 1,
       suspended := remaining i (suspended s),
       trace := trace s @
         (if socket s = OPEN
          then [Send (resultFrame e (itask (suspended s ! i))
                        (executeTask e (itask (suspended s ! i))))]
          else [])\<rparr>"
  by (simp add: onTaskFinished_spec_def Let_def emit_def drain_spec_stop)

lemma onTaskFinished_spec_waiting:
  assumes q: "taskQueue s = nextTask # rest"
    and c: "activeTaskCount s = maxConcurrentTasks cfg"
  shows "onTaskFinished_spec cfg e i s =
     s\<lparr>taskQueue := rest,
       suspended := remaining i (suspended s) @ [\<lparr>itask = nextTask, awaitedBy = 0\<rparr>],
       trace := trace s @
         (if socket s = OPEN
          then [Send (resultFrame e (itask (suspended s ! i))
                        (executeTask e (itask (suspended s ! i))))]
          else [])\<rparr>"
proof -
  let ?fs = "if socket s = OPEN
             then [Send (resultFrame e (itask (suspended s ! i))
                           (executeTask e (itask (suspended s ! i))))]
             else []"
  let ?s2 = "s\<lparr>activeTaskCount := activeTaskCount s - 1,
                suspended := remaining i (suspended s), trace := trace s @ ?fs\<rparr>"
  have "onTaskFinished_spec cfg e i s = drain_spec cfg ?s2"
    by (simp add: onTaskFinished_spec_def Let_def emit_def)
  also have "\<dots> = drain_spec cfg (admit_spec nextTask (?s2\<lparr>taskQueue := rest\<rparr>))"
    using q c by (intro drain_spec_go) simp_all
  also have "\<dots> = admit_spec nextTask (?s2\<lparr>taskQueue := rest\<rparr>)"
    using c by (intro drain_spec_stop) (simp add: admit_spec_def)
  finally show ?thesis
    using c by (simp add: admit_spec_def)
qed

subsection \<open>Evaluation on concrete inputs\<close>

lemmas executor_defs =
  run_def step_def onmessage_def handleTaskRequest_def resumeTask_def tryBlock_def
  catchBlock_def afterTry_def sendTaskResult_def socketSend_def resultMessage_def emit_def
  initial_def initializeWebSocket_def remaining_def

lemmas handler_defs =
  executeTask_def executeDOMTask_def executeNetworkTask_def executeUITask_def
  executeDataExtractionTask_def executeInPage_def throwUnknown_def

lemmas example_defs =
  exampleConfig_def exampleEnv_def exampleTask_def request_def taskExecutor_def

text \<open>
  A task whose handler settles while the socket made by the reconnection is still
  connecting: \<open>send\<close> throws in the \<open>try\<close> block and again in the \<open>catch\<close> block, and
  the counter is not decremented.
\<close>

lemma connecting_socket_leaks_slot:
  "run taskExecutor
     [Opened, request (exampleTask ''t1'' ''DATA_EXTRACTION'' ''SCREENSHOT''), Closed, Reconnect,
      Settle 0 exampleEnv]
   = \<lparr>activeTaskCount = 1, taskQueue = [], suspended = [], socket = CONNECTING,
      trace =
        [Received (exampleTask ''t1'' ''DATA_EXTRACTION'' ''SCREENSHOT''),
         Began 0 (exampleTask ''t1'' ''DATA_EXTRACTION'' ''SCREENSHOT''),
         Resumed (exampleTask ''t1'' ''DATA_EXTRACTION'' ''SCREENSHOT'')
           (Resolved (JStr ''data:image/png;base64,AAAA'')) CONNECTING,
         Unhandled InvalidStateErrorObj]\<rparr>"
  by (simp add: executor_defs handler_defs example_defs Let_def)


section \<open>The properties\<close>

text \<open>
  C1. In every state the executor can reach, whatever frames arrived, whatever handlers
  settled and whatever the socket did, in whatever order, the number of calls suspended
  on a running task is at most \<open>activeTaskCount\<close>, and \<open>activeTaskCount\<close> is at most
  \<open>maxConcurrentTasks\<close> (a limit that is not negative); a task handed to
  \<open>handleTaskRequest\<close> at capacity is appended to the queue and nothing is started.
\<close>

theorem admission_bound:
  assumes "0 \<le> maxConcurrentTasks cfg"
  shows "int (length (suspended (run cfg evs))) \<le> activeTaskCount (run cfg evs)
       \<and> activeTaskCount (run cfg evs) \<le> maxConcurrentTasks cfg
       \<and> (maxConcurrentTasks cfg \<le> activeTaskCount (run cfg evs) \<longrightarrow>
            handleTaskRequest cfg d t (run cfg evs)
              = (run cfg evs)\<lparr>taskQueue := taskQueue (run cfg evs) @ [t],
                               trace := trace (run cfg evs) @ [Pushed t]\<rparr>)"
  using assms admission_run[of cfg evs]
  by (auto simp: admission_def handleTaskRequest_full)

theorem admission_bound_witness:
  "0 \<le> maxConcurrentTasks (exampleConfig 1)
   \<and> maxConcurrentTasks (exampleConfig 1)
        \<le> activeTaskCount (run (exampleConfig 1)
             [Opened, request (exampleTask ''a'' ''UI_AUTOMATION'' ''OPEN_POPUP'')])
   \<and> activeTaskCount (run (exampleConfig 1)
        [Opened, request (exampleTask ''a'' ''UI_AUTOMATION'' ''OPEN_POPUP'')]) = 1
   \<and> taskQueue (handleTaskRequest (exampleConfig 1) 0 (exampleTask ''b'' ''UI_AUTOMATION'' ''OPEN_POPUP'')
        (run (exampleConfig 1) [Opened, request (exampleTask ''a'' ''UI_AUTOMATION'' ''OPEN_POPUP'')]))
       = [exampleTask ''b'' ''UI_AUTOMATION'' ''OPEN_POPUP'']"
  using admission_bound[of "exampleConfig 1"
          "[Opened, request (exampleTask ''a'' ''UI_AUTOMATION'' ''OPEN_POPUP'')]" 0
          "exampleTask ''b'' ''UI_AUTOMATION'' ''OPEN_POPUP''"]
  by (simp add: executor_defs example_defs)




text \<open>
  C3. In every run the tasks pushed on the queue, in the order of their arrival, are
  the tasks started from the queue, in the order they were started, followed by the
  tasks still waiting: the queue is left in arrival order, and what leaves it is started.
\<close>

theorem fifo_admission:
  "pushed (run cfg evs) = begunFromQueue (run cfg evs) @ taskQueue (run cfg evs)"
  by (rule fifo_run)

theorem fifo_admission_witness:
  "pushed (run (exampleConfig 1)
      [Opened, request (exampleTask ''T0'' ''NETWORK_INTERCEPT'' ''GET''),
       request (exampleTask ''T1'' ''NETWORK_INTERCEPT'' ''GET''),
       request (exampleTask ''T2'' ''BOGUS'' ''X''),
       request (exampleTask ''T3'' ''DATA_EXTRACTION'' ''TEXT''),
       Settle 0 exampleEnv, Settle 0 exampleEnv])
     = [exampleTask ''T1'' ''NETWORK_INTERCEPT'' ''GET'', exampleTask ''T2'' ''BOGUS'' ''X'',
        exampleTask ''T3'' ''DATA_EXTRACTION'' ''TEXT'']
   \<and> begunFromQueue (run (exampleConfig 1)
      [Opened, request (exampleTask ''T0'' ''NETWORK_INTERCEPT'' ''GET''),
       request (exampleTask ''T1'' ''NETWORK_INTERCEPT'' ''GET''),
       request (exampleTask ''T2'' ''BOGUS'' ''X''),
       request (exampleTask ''T3'' ''DATA_EXTRACTION'' ''TEXT''),
       Settle 0 exampleEnv, Settle 0 exampleEnv])
     = [exampleTask ''T1'' ''NETWORK_INTERCEPT'' ''GET'', exampleTask ''T2'' ''BOGUS'' ''X'']
   \<and> taskQueue (run (exampleConfig 1)
      [Opened, request (exampleTask ''T0'' ''NETWORK_INTERCEPT'' ''GET''),
       request (exampleTask ''T1'' ''NETWORK_INTERCEPT'' ''GET''),
       request (exampleTask ''T2'' ''BOGUS'' ''X''),
       request (exampleTask ''T3'' ''DATA_EXTRACTION'' ''TEXT''),
       Settle 0 exampleEnv, Settle 0 exampleEnv])
     = [exampleTask ''T3'' ''DATA_EXTRACTION'' ''TEXT'']"
  using fifo_admission[of "exampleConfig 1"
      "[Opened, request (exampleTask ''T0'' ''NETWORK_INTERCEPT'' ''GET''),
       request (exampleTask ''T1'' ''NETWORK_INTERCEPT'' ''GET''),
       request (exampleTask ''T2'' ''BOGUS'' ''X''),
       request (exampleTask ''T3'' ''DATA_EXTRACTION'' ''TEXT''),
       Settle 0 exampleEnv, Settle 0 exampleEnv]"]
  by (simp add: executor_defs handler_defs example_defs readings Let_def)

text \<open>
  C4. Let the \<open>type\<close> of a task be none of the four known categories, with the text
  \<open>category\<close> in a template literal. If the task arrives (on the open socket) below
  capacity and its handler promise settles next, the executor is back in the state it
  was in (the same counter, queue and suspended calls), its trace longer by the arrival
  and the start of the task, the rejection and one frame with status \<open>failed\<close> and the
  error \<open>Unknown task type: category\<close>. And whenever the promise of such a task settles,
  in any state whose socket is not connecting, that one frame is handed to the socket and
  the call goes on with the decrement and the look at the queue as for every other task.
  (Such a task is rejected without a call to the host, so its promise settles in the turn
  that started it, where the socket has just delivered or taken a frame.)
\<close>

theorem unknown_type_fails:
  assumes "getProp t ''type'' = Inr ty"
    and "ty \<notin> {JStr ''DOM_MANIPULATION'', JStr ''NETWORK_INTERCEPT'', JStr ''UI_AUTOMATION'',
               JStr ''DATA_EXTRACTION''}"
    and "toStringJS ty = Some category"
  shows "(requestedOf (Message (Some m)) = [t]
            \<and> socket (run cfg evs) = OPEN
            \<and> activeTaskCount (run cfg evs) < maxConcurrentTasks cfg
          \<longrightarrow> step cfg (Settle (length (suspended (run cfg evs))) e)
                (step cfg (Message (Some m)) (run cfg evs))
              = (run cfg evs)
                  \<lparr>trace := trace (run cfg evs) @
                     [Received t, Began 0 t,
                      Resumed t (Rejected (ErrorObj (''Unknown task type: '' @ category))) OPEN,
                      Send (stringify (resultMessage e (field t ''id'') ''failed'' JNull
                              (Some (ErrorObj (''Unknown task type: '' @ category)))))]\<rparr>)
       \<and> (i < length (suspended s) \<and> itask (suspended s ! i) = t \<and> socket s \<noteq> CONNECTING
          \<longrightarrow> step cfg (Settle i e) s
              = afterTry cfg (suspended s ! i)
                  (s\<lparr>suspended := remaining i (suspended s),
                     trace := trace s @
                       [Resumed t (Rejected (ErrorObj (''Unknown task type: '' @ category)))
                          (socket s),
                        handed (socket s)
                          (stringify (resultMessage e (field t ''id'') ''failed'' JNull
                             (Some (ErrorObj (''Unknown task type: '' @ category)))))]\<rparr>))"
proof (intro conjI impI)
  have p: "\<not> nullish t" using assms(1) by (rule getProp_Inr_proper)
  have x: "executeTask e t = Rejected (ErrorObj (''Unknown task type: '' @ category))"
    using assms by (rule executeTask_unknown_type)
  {
    assume h: "requestedOf (Message (Some m)) = [t]
                 \<and> socket (run cfg evs) = OPEN
                 \<and> activeTaskCount (run cfg evs) < maxConcurrentTasks cfg"
    let ?s = "run cfg evs"
    let ?s1 = "?s\<lparr>activeTaskCount := activeTaskCount ?s + 1,
                   suspended := suspended ?s @ [\<lparr>itask = t, awaitedBy = 0\<rparr>],
                   trace := trace ?s @ [Received t, Began 0 t]\<rparr>"
    have "admission cfg ?s" by (rule admission_run)
    with h have q: "taskQueue ?s = []" by (auto simp: admission_def)
    have "step cfg (Message (Some m)) ?s = ?s1"
      using h by (simp add: step_def onmessage_request handleTaskRequest_free)
    moreover have "step cfg (Settle (length (suspended ?s)) e) ?s1
        = ?s\<lparr>trace := trace ?s @
                  [Received t, Began 0 t,
                   Resumed t (Rejected (ErrorObj (''Unknown task type: '' @ category))) OPEN,
                   Send (stringify (resultMessage e (field t ''id'') ''failed'' JNull
                           (Some (ErrorObj (''Unknown task type: '' @ category)))))]\<rparr>"
      using p q x h
      by (simp add: step_Settle_finished remaining_last resultFrame_def handed_def)
    ultimately show "step cfg (Settle (length (suspended ?s)) e) (step cfg (Message (Some m)) ?s)
        = ?s\<lparr>trace := trace ?s @
                  [Received t, Began 0 t,
                   Resumed t (Rejected (ErrorObj (''Unknown task type: '' @ category))) OPEN,
                   Send (stringify (resultMessage e (field t ''id'') ''failed'' JNull
                           (Some (ErrorObj (''Unknown task type: '' @ category)))))]\<rparr>"
      by simp
  }
  {
    assume "i < length (suspended s) \<and> itask (suspended s ! i) = t \<and> socket s \<noteq> CONNECTING"
    then show "step cfg (Settle i e) s
              = afterTry cfg (suspended s ! i)
                  (s\<lparr>suspended := remaining i (suspended s),
                     trace := trace s @
                       [Resumed t (Rejected (ErrorObj (''Unknown task type: '' @ category)))
                          (socket s),
                        handed (socket s)
                          (stringify (resultMessage e (field t ''id'') ''failed'' JNull
                             (Some (ErrorObj (''Unknown task type: '' @ category)))))]\<rparr>)"
      using p x by (simp add: step_def resumeTask_proper resultFrame_def)
  }
qed

theorem unknown_type_fails_witness:
  "getProp (exampleTask ''t9'' ''BOGUS'' ''X'') ''type'' = Inr (JStr ''BOGUS'')
   \<and> JStr ''BOGUS'' \<notin> {JStr ''DOM_MANIPULATION'', JStr ''NETWORK_INTERCEPT'',
                           JStr ''UI_AUTOMATION'', JStr ''DATA_EXTRACTION''}
   \<and> toStringJS (JStr ''BOGUS'') = Some ''BOGUS''
   \<and> requestedOf (request (exampleTask ''t9'' ''BOGUS'' ''X'')) = [exampleTask ''t9'' ''BOGUS'' ''X'']
   \<and> socket (run taskExecutor [Opened, request (exampleTask ''t1'' ''NETWORK_INTERCEPT'' ''GET'')])
       = OPEN
   \<and> activeTaskCount
        (run taskExecutor [Opened, request (exampleTask ''t1'' ''NETWORK_INTERCEPT'' ''GET'')])
        < maxConcurrentTasks taskExecutor
   \<and> step taskExecutor (Settle 1 exampleEnv)
        (step taskExecutor (request (exampleTask ''t9'' ''BOGUS'' ''X''))
           (run taskExecutor [Opened, request (exampleTask ''t1'' ''NETWORK_INTERCEPT'' ''GET'')]))
      = \<lparr>activeTaskCount = 1, taskQueue = [],
         suspended = [\<lparr>itask = exampleTask ''t1'' ''NETWORK_INTERCEPT'' ''GET'', awaitedBy = 0\<rparr>],
         socket = OPEN,
         trace =
           [Received (exampleTask ''t1'' ''NETWORK_INTERCEPT'' ''GET''),
            Began 0 (exampleTask ''t1'' ''NETWORK_INTERCEPT'' ''GET''),
            Received (exampleTask ''t9'' ''BOGUS'' ''X''),
            Began 0 (exampleTask ''t9'' ''BOGUS'' ''X''),
            Resumed (exampleTask ''t9'' ''BOGUS'' ''X'')
              (Rejected (ErrorObj ''Unknown task type: BOGUS'')) OPEN,
            Send (JObj
              [(''message_type'', JStr ''task_result''),
               (''content'', JObj
                  [(''task_id'', JStr ''t9''), (''status'', JStr ''failed''),
                   (''result'', JNull), (''error'', JStr ''Unknown task type: BOGUS''),
                   (''timestamp'', JStr ''2024-05-01T12:00:00.000Z'')])])]\<rparr>
   \<and> step (exampleConfig 1) (Settle 0 exampleEnv)
        \<lparr>activeTaskCount = 1,
         taskQueue = [exampleTask ''t2'' ''NETWORK_INTERCEPT'' ''GET''],
         suspended = [\<lparr>itask = exampleTask ''t9'' ''BOGUS'' ''X'', awaitedBy = 1\<rparr>],
         socket = OPEN,
         trace = []\<rparr>
      = \<lparr>activeTaskCount = 1, taskQueue = [],
         suspended = [\<lparr>itask = exampleTask ''t2'' ''NETWORK_INTERCEPT'' ''GET'', awaitedBy = 2\<rparr>],
         socket = OPEN,
         trace =
           [Resumed (exampleTask ''t9'' ''BOGUS'' ''X'')
              (Rejected (ErrorObj ''Unknown task type: BOGUS'')) OPEN,
            Send (JObj
              [(''message_type'', JStr ''task_result''),
               (''content'', JObj
                  [(''task_id'', JStr ''t9''), (''status'', JStr ''failed''),
                   (''result'', JNull), (''error'', JStr ''Unknown task type: BOGUS''),
                   (''timestamp'', JStr ''2024-05-01T12:00:00.000Z'')])]),
            Began 2 (exampleTask ''t2'' ''NETWORK_INTERCEPT'' ''GET'')]\<rparr>"
  using
    unknown_type_fails[where t = "exampleTask ''t9'' ''BOGUS'' ''X''" and ty = "JStr ''BOGUS''"
      and category = "''BOGUS''"
      and m = "JObj [(''sender'', JStr ''interface''), (''message_type'', JStr ''task_request''),
                     (''content'', exampleTask ''t9'' ''BOGUS'' ''X'')]"
      and cfg = taskExecutor
      and evs = "[Opened, request (exampleTask ''t1'' ''NETWORK_INTERCEPT'' ''GET'')]"
      and e = exampleEnv]
    unknown_type_fails[where t = "exampleTask ''t9'' ''BOGUS'' ''X''" and ty = "JStr ''BOGUS''"
      and category = "''BOGUS''" and i = 0
      and s = "\<lparr>activeTaskCount = 1,
         taskQueue = [exampleTask ''t2'' ''NETWORK_INTERCEPT'' ''GET''],
         suspended = [\<lparr>itask = exampleTask ''t9'' ''BOGUS'' ''X'', awaitedBy = 1\<rparr>],
         socket = OPEN,
         trace = []\<rparr>"
      and cfg = "exampleConfig 1" and e = exampleEnv]
  by (simp add: executor_defs handler_defs example_defs requestedOf_def field_def Let_def
        handed_def)


text \<open>
  C5, as the code has it. When the handler of a task with properties (not \<open>null\<close>, not
  \<open>undefined\<close>) settles while the socket is not connecting, what can be observed
  afterwards (counter, queue, running tasks, frames sent) is what the specification's
  completion gives: the counter decremented, one result frame, and the queue drained
  while there is room, which in a reachable state is at most the head of the queue. The
  code admits that head by an awaited call of \<open>handleTaskRequest\<close> from inside the call
  that finished: the new call is awaited by one call more than the finished one was.
\<close>

theorem completion_drains_queue:
  assumes "i < length (suspended (run cfg evs))"
    and "\<not> nullish (itask (suspended (run cfg evs) ! i))"
    and "socket (run cfg evs) \<noteq> CONNECTING"
  shows "observable (step cfg (Settle i e) (run cfg evs))
           = observable (onTaskFinished_spec cfg e i (run cfg evs))
       \<and> map awaitedBy (suspended (step cfg (Settle i e) (run cfg evs)))
           = map awaitedBy (remaining i (suspended (run cfg evs)))
             @ (if taskQueue (run cfg evs) = [] then []
                else [Suc (awaitedBy (suspended (run cfg evs) ! i))])"
proof (cases "taskQueue (run cfg evs)")
  case Nil
  then show ?thesis
    using assms
    by (simp add: step_Settle_finished onTaskFinished_spec_empty observable_def readings
          handed_def)
next
  case (Cons nextTask rest)
  have a: "admission cfg (run cfg evs)" by (rule admission_run)
  with assms(1) Cons have "activeTaskCount (run cfg evs) = maxConcurrentTasks cfg"
    by (auto simp: admission_def)
  then show ?thesis
    using assms Cons a
    by (simp add: step_Settle_drained onTaskFinished_spec_waiting observable_def readings
          handed_def)
qed

theorem completion_drains_queue_witness:
  "1 < length (suspended (run (exampleConfig 2)
         [Opened, request (exampleTask ''T1'' ''NETWORK_INTERCEPT'' ''GET''),
          request (exampleTask ''T2'' ''DATA_EXTRACTION'' ''SCREENSHOT''),
          request (exampleTask ''T3'' ''BOGUS'' ''X'')]))
   \<and> \<not> nullish (itask (suspended (run (exampleConfig 2)
         [Opened, request (exampleTask ''T1'' ''NETWORK_INTERCEPT'' ''GET''),
          request (exampleTask ''T2'' ''DATA_EXTRACTION'' ''SCREENSHOT''),
          request (exampleTask ''T3'' ''BOGUS'' ''X'')]) ! 1))
   \<and> socket (run (exampleConfig 2)
         [Opened, request (exampleTask ''T1'' ''NETWORK_INTERCEPT'' ''GET''),
          request (exampleTask ''T2'' ''DATA_EXTRACTION'' ''SCREENSHOT''),
          request (exampleTask ''T3'' ''BOGUS'' ''X'')]) \<noteq> CONNECTING
   \<and> observable (onTaskFinished_spec (exampleConfig 2) exampleEnv 1
        (run (exampleConfig 2)
         [Opened, request (exampleTask ''T1'' ''NETWORK_INTERCEPT'' ''GET''),
          request (exampleTask ''T2'' ''DATA_EXTRACTION'' ''SCREENSHOT''),
          request (exampleTask ''T3'' ''BOGUS'' ''X'')]))
      = (2, [],
         [exampleTask ''T1'' ''NETWORK_INTERCEPT'' ''GET'', exampleTask ''T3'' ''BOGUS'' ''X''],
         [stringify (resultMessage exampleEnv (JStr ''T2'') ''completed''
                       (JStr ''data:image/png;base64,AAAA'') None)])
   \<and> map awaitedBy (suspended (step (exampleConfig 2) (Settle 1 exampleEnv)
        (run (exampleConfig 2)
         [Opened, request (exampleTask ''T1'' ''NETWORK_INTERCEPT'' ''GET''),
          request (exampleTask ''T2'' ''DATA_EXTRACTION'' ''SCREENSHOT''),
          request (exampleTask ''T3'' ''BOGUS'' ''X'')]))) = [0, 1]"
  using completion_drains_queue[of 1 "exampleConfig 2"
         "[Opened, request (exampleTask ''T1'' ''NETWORK_INTERCEPT'' ''GET''),
          request (exampleTask ''T2'' ''DATA_EXTRACTION'' ''SCREENSHOT''),
          request (exampleTask ''T3'' ''BOGUS'' ''X'')]" exampleEnv]
  by (simp add: executor_defs handler_defs example_defs readings Let_def nullish_def
        observable_def)

text \<open>
  C5 as stated fails: the queue is not drained by a loop. With a limit of 1 and three
  requests, the call that runs the third task is awaited by the calls of the first and
  the second, where the loop of the specification leaves no call waiting.
\<close>

theorem drain_is_recursive_counterexample:
  "map awaitedBy (suspended (run (exampleConfig 1)
      [Opened, request (exampleTask ''T1'' ''NETWORK_INTERCEPT'' ''GET''),
       request (exampleTask ''T2'' ''NETWORK_INTERCEPT'' ''GET''),
       request (exampleTask ''T3'' ''NETWORK_INTERCEPT'' ''GET''),
       Settle 0 exampleEnv, Settle 0 exampleEnv])) = [2]
   \<and> map awaitedBy (suspended (onTaskFinished_spec (exampleConfig 1) exampleEnv 0
        (run (exampleConfig 1)
          [Opened, request (exampleTask ''T1'' ''NETWORK_INTERCEPT'' ''GET''),
           request (exampleTask ''T2'' ''NETWORK_INTERCEPT'' ''GET''),
           request (exampleTask ''T3'' ''NETWORK_INTERCEPT'' ''GET''),
           Settle 0 exampleEnv]))) = [0]"
  by (simp add: executor_defs handler_defs example_defs readings Let_def
        onTaskFinished_spec_waiting)

text \<open>
  C6, as the code has it. A task of a known category whose \<open>action\<close> (for an
  extraction, whose \<open>type\<close> inside \<open>parameters\<close>) is none the handler knows is
  rejected with \<open>Unknown DOM action: a\<close>, \<open>Unknown UI action: a\<close> or
  \<open>Unknown extraction type: a\<close>, where \<open>a\<close> is the text of the value; and a rejected
  task, on a socket that is not connecting, gets one frame with status \<open>failed\<close> and
  that message, after which the call goes on as for every other task. (Such a task is
  rejected without a call to the host, so its promise settles in the turn that started
  it, where the socket has just delivered or taken a frame.)
\<close>

theorem unknown_action_messages:
  assumes "getProp t ''parameters'' = Inr p" and "toStringJS a = Some atext"
  shows "(getProp t ''type'' = Inr (JStr ''DOM_MANIPULATION'') \<and> getProp p ''action'' = Inr a
            \<and> a \<notin> {JStr ''CLICK'', JStr ''INPUT'', JStr ''SCROLL''}
          \<longrightarrow> executeTask e t = Rejected (ErrorObj (''Unknown DOM action: '' @ atext)))
       \<and> (getProp t ''type'' = Inr (JStr ''UI_AUTOMATION'') \<and> getProp p ''action'' = Inr a
            \<and> a \<notin> {JStr ''OPEN_POPUP'', JStr ''SHOW_NOTIFICATION''}
          \<longrightarrow> executeTask e t = Rejected (ErrorObj (''Unknown UI action: '' @ atext)))
       \<and> (getProp t ''type'' = Inr (JStr ''DATA_EXTRACTION'') \<and> getProp p ''type'' = Inr a
            \<and> a \<notin> {JStr ''TEXT'', JStr ''ATTRIBUTES'', JStr ''SCREENSHOT''}
          \<longrightarrow> executeTask e t = Rejected (ErrorObj (''Unknown extraction type: '' @ atext)))
       \<and> (executeTask e t = Rejected x \<and> socket s \<noteq> CONNECTING
          \<longrightarrow> resumeTask cfg e \<lparr>itask = t, awaitedBy = d\<rparr> s
              = afterTry cfg \<lparr>itask = t, awaitedBy = d\<rparr>
                  (s\<lparr>trace := trace s @
                     [Resumed t (Rejected x) (socket s),
                      handed (socket s)
                        (stringify (resultMessage e (field t ''id'') ''failed'' JNull
                           (Some x)))]\<rparr>))"
proof (intro conjI impI)
  assume "getProp t ''type'' = Inr (JStr ''DOM_MANIPULATION'') \<and> getProp p ''action'' = Inr a
            \<and> a \<notin> {JStr ''CLICK'', JStr ''INPUT'', JStr ''SCROLL''}"
  then show "executeTask e t = Rejected (ErrorObj (''Unknown DOM action: '' @ atext))"
    using assms by (simp add: executeTask_def executeDOMTask_def throwUnknown_def)
next
  assume "getProp t ''type'' = Inr (JStr ''UI_AUTOMATION'') \<and> getProp p ''action'' = Inr a
            \<and> a \<notin> {JStr ''OPEN_POPUP'', JStr ''SHOW_NOTIFICATION''}"
  moreover have "\<not> nullish p" using calculation getProp_Inr_proper by blast
  ultimately show "executeTask e t = Rejected (ErrorObj (''Unknown UI action: '' @ atext))"
    using assms
    by (simp add: executeTask_def executeUITask_def throwUnknown_def getProp_field)
next
  assume "getProp t ''type'' = Inr (JStr ''DATA_EXTRACTION'') \<and> getProp p ''type'' = Inr a
            \<and> a \<notin> {JStr ''TEXT'', JStr ''ATTRIBUTES'', JStr ''SCREENSHOT''}"
  then show "executeTask e t = Rejected (ErrorObj (''Unknown extraction type: '' @ atext))"
    using assms by (simp add: executeTask_def executeDataExtractionTask_def throwUnknown_def)
next
  assume r: "executeTask e t = Rejected x \<and> socket s \<noteq> CONNECTING"
  have "\<not> nullish t" using assms(1) by (rule getProp_Inr_proper)
  then show "resumeTask cfg e \<lparr>itask = t, awaitedBy = d\<rparr> s
              = afterTry cfg \<lparr>itask = t, awaitedBy = d\<rparr>
                  (s\<lparr>trace := trace s @
                     [Resumed t (Rejected x) (socket s),
                      handed (socket s)
                        (stringify (resultMessage e (field t ''id'') ''failed'' JNull
                           (Some x)))]\<rparr>)"
    using r by (simp add: resumeTask_proper resultFrame_def)
qed

theorem unknown_action_messages_witness:
  "getProp (exampleTask ''d'' ''DOM_MANIPULATION'' ''HOVER'') ''parameters''
     = Inr (JObj [(''action'', JStr ''HOVER''), (''type'', JStr ''HOVER''),
                  (''selector'', JStr ''#go'')])
   \<and> toStringJS (JStr ''HOVER'') = Some ''HOVER''
   \<and> getProp (exampleTask ''d'' ''DOM_MANIPULATION'' ''HOVER'') ''type''
       = Inr (JStr ''DOM_MANIPULATION'')
   \<and> JStr ''HOVER'' \<notin> {JStr ''CLICK'', JStr ''INPUT'', JStr ''SCROLL''}
   \<and> executeTask exampleEnv (exampleTask ''d'' ''DOM_MANIPULATION'' ''HOVER'')
       = Rejected (ErrorObj ''Unknown DOM action: HOVER'')
   \<and> getProp (exampleTask ''u'' ''UI_AUTOMATION'' ''HOVER'') ''type''
       = Inr (JStr ''UI_AUTOMATION'')
   \<and> JStr ''HOVER'' \<notin> {JStr ''OPEN_POPUP'', JStr ''SHOW_NOTIFICATION''}
   \<and> executeTask exampleEnv (exampleTask ''u'' ''UI_AUTOMATION'' ''HOVER'')
       = Rejected (ErrorObj ''Unknown UI action: HOVER'')
   \<and> getProp (exampleTask ''x'' ''DATA_EXTRACTION'' ''HOVER'') ''type''
       = Inr (JStr ''DATA_EXTRACTION'')
   \<and> JStr ''HOVER'' \<notin> {JStr ''TEXT'', JStr ''ATTRIBUTES'', JStr ''SCREENSHOT''}
   \<and> executeTask exampleEnv (exampleTask ''x'' ''DATA_EXTRACTION'' ''HOVER'')
       = Rejected (ErrorObj ''Unknown extraction type: HOVER'')
   \<and> OPEN \<noteq> CONNECTING
   \<and> resumeTask taskExecutor exampleEnv
        \<lparr>itask = exampleTask ''x'' ''DATA_EXTRACTION'' ''HOVER'', awaitedBy = 0\<rparr>
        \<lparr>activeTaskCount = 1, taskQueue = [], suspended = [], socket = OPEN, trace = []\<rparr>
       = \<lparr>activeTaskCount = 0, taskQueue = [], suspended = [], socket = OPEN,
          trace =
            [Resumed (exampleTask ''x'' ''DATA_EXTRACTION'' ''HOVER'')
               (Rejected (ErrorObj ''Unknown extraction type: HOVER'')) OPEN,
             Send (JObj
               [(''message_type'', JStr ''task_result''),
                (''content'', JObj
                   [(''task_id'', JStr ''x''), (''status'', JStr ''failed''),
                    (''result'', JNull), (''error'', JStr ''Unknown extraction type: HOVER''),
                    (''timestamp'', JStr ''2024-05-01T12:00:00.000Z'')])])]\<rparr>"
  using
    unknown_action_messages[where t = "exampleTask ''d'' ''DOM_MANIPULATION'' ''HOVER''"
      and p = "JObj [(''action'', JStr ''HOVER''), (''type'', JStr ''HOVER''),
                     (''selector'', JStr ''#go'')]"
      and a = "JStr ''HOVER''" and atext = "''HOVER''" and e = exampleEnv]
    unknown_action_messages[where t = "exampleTask ''u'' ''UI_AUTOMATION'' ''HOVER''"
      and p = "JObj [(''action'', JStr ''HOVER''), (''type'', JStr ''HOVER''),
                     (''selector'', JStr ''#go'')]"
      and a = "JStr ''HOVER''" and atext = "''HOVER''" and e = exampleEnv]
    unknown_action_messages[where t = "exampleTask ''x'' ''DATA_EXTRACTION'' ''HOVER''"
      and p = "JObj [(''action'', JStr ''HOVER''), (''type'', JStr ''HOVER''),
                     (''selector'', JStr ''#go'')]"
      and a = "JStr ''HOVER''" and atext = "''HOVER''" and e = exampleEnv
      and x = "ErrorObj ''Unknown extraction type: HOVER''" and cfg = taskExecutor and d = 0
      and s = "\<lparr>activeTaskCount = 1, taskQueue = [], suspended = [], socket = OPEN,
                 trace = []\<rparr>"]
  by (simp add: example_defs afterTry_def resultMessage_def field_def handed_def)

text \<open>
  C6 as stated fails: the message does not name the category, and for an extraction it
  does not have the form \<open>Unknown ... action: ...\<close> at all.
\<close>

theorem unknown_action_messages_counterexample:
  "executeTask exampleEnv (exampleTask ''x'' ''DATA_EXTRACTION'' ''FOO'')
     = Rejected (ErrorObj ''Unknown extraction type: FOO'')
   \<and> executeTask exampleEnv (exampleTask ''x'' ''DATA_EXTRACTION'' ''FOO'')
     \<noteq> Rejected (ErrorObj ''Unknown DATA_EXTRACTION action: FOO'')
   \<and> executeTask exampleEnv (exampleTask ''y'' ''DOM_MANIPULATION'' ''FOO'')
     = Rejected (ErrorObj ''Unknown DOM action: FOO'')
   \<and> executeTask exampleEnv (exampleTask ''y'' ''DOM_MANIPULATION'' ''FOO'')
     \<noteq> Rejected (ErrorObj ''Unknown DOM_MANIPULATION action: FOO'')"
  by (simp add: handler_defs example_defs)

text \<open>
  C7 fails on the code: the frame of a finished task has the members \<open>message_type\<close>
  and \<open>content\<close> and no \<open>sender\<close>, and its \<open>result\<close> here is a string.
\<close>

theorem task_result_without_sender:
  "sent (run taskExecutor
      [Opened, request (exampleTask ''t1'' ''DATA_EXTRACTION'' ''SCREENSHOT''),
       Settle 0 exampleEnv])
     = [JObj
          [(''message_type'', JStr ''task_result''),
           (''content'', JObj
              [(''task_id'', JStr ''t1''), (''status'', JStr ''completed''),
               (''result'', JStr ''data:image/png;base64,AAAA''), (''error'', JNull),
               (''timestamp'', JStr ''2024-05-01T12:00:00.000Z'')])]]
   \<and> map (\<lambda>frame. getProp frame ''sender'')
       (sent (run taskExecutor
          [Opened, request (exampleTask ''t1'' ''DATA_EXTRACTION'' ''SCREENSHOT''),
           Settle 0 exampleEnv]))
     = [Inr JUndefined]"
  by (simp add: executor_defs handler_defs example_defs readings Let_def)

text \<open>
  C8 fails on the code: a task request whose \<open>content\<close> is \<open>null\<close> is started,
  its rejection is caught, and \<open>task.id\<close> in the \<open>catch\<close> block throws again, past
  the decrement. The counter stays at 1 with nothing running and no frame sent; after
  five such requests a well-formed task is queued and no call is left to start it.
\<close>

theorem null_task_leaks_slot:
  "run taskExecutor [Opened, nullRequest, Settle 0 e]
     = \<lparr>activeTaskCount = 1, taskQueue = [], suspended = [], socket = OPEN,
        trace = [Received JNull, Began 0 JNull, Resumed JNull (Rejected TypeErrorObj) OPEN,
                 Unhandled TypeErrorObj]\<rparr>
   \<and> activeTaskCount (run taskExecutor
        [Opened, nullRequest, Settle 0 e, nullRequest, Settle 0 e, nullRequest, Settle 0 e,
         nullRequest, Settle 0 e, nullRequest, Settle 0 e,
         request (exampleTask ''t1'' ''DATA_EXTRACTION'' ''SCREENSHOT'')]) = 5
   \<and> suspended (run taskExecutor
        [Opened, nullRequest, Settle 0 e, nullRequest, Settle 0 e, nullRequest, Settle 0 e,
         nullRequest, Settle 0 e, nullRequest, Settle 0 e,
         request (exampleTask ''t1'' ''DATA_EXTRACTION'' ''SCREENSHOT'')]) = []
   \<and> taskQueue (run taskExecutor
        [Opened, nullRequest, Settle 0 e, nullRequest, Settle 0 e, nullRequest, Settle 0 e,
         nullRequest, Settle 0 e, nullRequest, Settle 0 e,
         request (exampleTask ''t1'' ''DATA_EXTRACTION'' ''SCREENSHOT'')])
       = [exampleTask ''t1'' ''DATA_EXTRACTION'' ''SCREENSHOT'']"
  by (simp add: executor_defs handler_defs example_defs nullRequest_def Let_def)




text \<open>
  C10. Every frame the executor sends, in every run, either has status \<open>completed\<close>
  and \<open>error\<close> \<open>null\<close>, or has status \<open>failed\<close> and \<open>result\<close> \<open>null\<close>.
\<close>

theorem result_error_pairing:
  "\<forall>f \<in> set (sent (run cfg evs)).
     (contentField f ''status'' = JStr ''completed'' \<and> contentField f ''error'' = JNull)
   \<or> (contentField f ''status'' = JStr ''failed'' \<and> contentField f ''result'' = JNull)"
proof
  fix f assume "f \<in> set (sent (run cfg evs))"
  then obtain e t outcome where f: "f = resultFrame e t outcome"
    using sent_run by blast
  show "(contentField f ''status'' = JStr ''completed'' \<and> contentField f ''error'' = JNull)
      \<or> (contentField f ''status'' = JStr ''failed'' \<and> contentField f ''result'' = JNull)"
    unfolding f
    by (cases outcome)
       (simp_all add: resultFrame_status resultFrame_error resultFrame_result statusOf_def)
qed

theorem result_error_pairing_witness:
  "length (sent (run (exampleConfig 2)
      [Opened, request (exampleTask ''a'' ''DATA_EXTRACTION'' ''SCREENSHOT''),
       request (exampleTask ''b'' ''NETWORK_INTERCEPT'' ''GET''),
       Settle 1 exampleEnv, Settle 0 exampleEnv])) = 2
   \<and> list_all
        (\<lambda>f. (contentField f ''status'' = JStr ''completed'' \<and> contentField f ''error'' = JNull)
           \<or> (contentField f ''status'' = JStr ''failed'' \<and> contentField f ''result'' = JNull))
        (sent (run (exampleConfig 2)
          [Opened, request (exampleTask ''a'' ''DATA_EXTRACTION'' ''SCREENSHOT''),
           request (exampleTask ''b'' ''NETWORK_INTERCEPT'' ''GET''),
           Settle 1 exampleEnv, Settle 0 exampleEnv]))"
proof -
  let ?evs = "[Opened, request (exampleTask ''a'' ''DATA_EXTRACTION'' ''SCREENSHOT''),
               request (exampleTask ''b'' ''NETWORK_INTERCEPT'' ''GET''),
               Settle 1 exampleEnv, Settle 0 exampleEnv]"
  have "length (sent (run (exampleConfig 2) ?evs)) = 2"
    by (simp add: executor_defs handler_defs example_defs readings Let_def)
  moreover have "list_all
        (\<lambda>f. (contentField f ''status'' = JStr ''completed'' \<and> contentField f ''error'' = JNull)
           \<or> (contentField f ''status'' = JStr ''failed'' \<and> contentField f ''result'' = JNull))
        (sent (run (exampleConfig 2) ?evs))"
    using result_error_pairing[of "exampleConfig 2" ?evs] by (simp only: list_all_iff)
  ultimately show ?thesis by blast
qed

end
